theory Spec2Isabelle
  imports Complex_Main "HOL-Library.Char_ord" "HOL-Library.List_Lexorder" "HOL-Library.Product_Lexorder"
    "HOL-Library.Multiset"
begin

section \<open>Strings\<close>

text \<open>
  A Python \<open>str\<close> is a sequence of code points. The model covers the code points below 256
  (Latin-1): a \<^typ>\<open>char\<close> stands for the code point \<open>of_char c\<close>, and a \<^typ>\<open>string\<close> for
  the sequence. The three character functions below are Python's on that range:
  \<open>str.isspace\<close> (which is also the regular expression class \<open>\s\<close> and what
  \<open>str.split()\<close> splits on), the regular expression class \<open>\w\<close>, and \<open>str.lower\<close>.
\<close>

definition is_space :: "char \<Rightarrow> bool" where
  "is_space c =
     (let n = (of_char c :: nat)
      in (9 \<le> n \<and> n \<le> 13) \<or> (28 \<le> n \<and> n \<le> 32) \<or> n = 133 \<or> n = 160)"

definition is_word :: "char \<Rightarrow> bool" where
  "is_word c =
     (let n = (of_char c :: nat)
      in (48 \<le> n \<and> n \<le> 57) \<or> (65 \<le> n \<and> n \<le> 90) \<or> n = 95 \<or> (97 \<le> n \<and> n \<le> 122)
         \<or> n = 170 \<or> n = 178 \<or> n = 179 \<or> n = 181 \<or> n = 185 \<or> n = 186
         \<or> (188 \<le> n \<and> n \<le> 190) \<or> (192 \<le> n \<and> n \<le> 214) \<or> (216 \<le> n \<and> n \<le> 246)
         \<or> 248 \<le> n)"

definition lower_char :: "char \<Rightarrow> char" where
  "lower_char c =
     (let n = (of_char c :: nat)
      in if (65 \<le> n \<and> n \<le> 90) \<or> (192 \<le> n \<and> n \<le> 214) \<or> (216 \<le> n \<and> n \<le> 222)
         then char_of (n + 32) else c)"

definition lower :: "string \<Rightarrow> string" where
  "lower s = map lower_char s"

text \<open>\<open>str.split()\<close> without a separator: the maximal runs of non-whitespace characters.
  The first argument is the run read so far.\<close>

fun split_ws_from :: "string \<Rightarrow> string \<Rightarrow> string list" where
  "split_ws_from cur [] = (if cur = [] then [] else [cur])"
| "split_ws_from cur (c # cs) =
     (if is_space c
      then (if cur = [] then split_ws_from [] cs else cur # split_ws_from [] cs)
      else split_ws_from (cur @ [c]) cs)"

definition split_ws :: "string \<Rightarrow> string list" where
  "split_ws s = split_ws_from [] s"

text \<open>\<open>sep.join(parts)\<close>.\<close>

fun join :: "string \<Rightarrow> string list \<Rightarrow> string" where
  "join sep [] = []"
| "join sep [w] = w"
| "join sep (w # ws) = w @ sep @ join sep ws"

text \<open>\<open>s.split(sep)\<close> for a one-character separator: always at least one part.
  The first argument is the part read so far.\<close>

fun split_from :: "char \<Rightarrow> string \<Rightarrow> string \<Rightarrow> string list" where
  "split_from sep cur [] = [cur]"
| "split_from sep cur (c # cs) =
     (if c = sep then cur # split_from sep [] cs else split_from sep (cur @ [c]) cs)"

definition split :: "char \<Rightarrow> string \<Rightarrow> string list" where
  "split sep s = split_from sep [] s"

section \<open>Title normalizer\<close>

text \<open>
  \<open>ZoteroLibraryAnalyzer.normalize_title\<close>. The argument is \<open>None\<close> or a string;
  \<open>if not title\<close> holds for \<open>None\<close> and for the empty string.
  \<open>re.sub(r'[^\w\s]', '', s)\<close> deletes every character that is neither in \<open>\w\<close> nor in
  \<open>\s\<close>.
\<close>

definition re_sub_nonword_nonspace :: "string \<Rightarrow> string" where
  "re_sub_nonword_nonspace s = filter (\<lambda>c. is_word c \<or> is_space c) s"

fun normalize_title :: "string option \<Rightarrow> string" where
  "normalize_title None = []"
| "normalize_title (Some title) =
     (if title = [] then []
      else join '' '' (split_ws (re_sub_nonword_nonspace (lower title))))"

text \<open>
  The normalizer as the specification words it, for comparison: lower-case; strip all
  characters that are not alphanumeric or whitespace; collapse any run of whitespace to a
  single space; trim. Alphanumeric is \<open>str.isalnum\<close>: the class \<open>\w\<close> without the
  underscore.
\<close>

definition is_alnum :: "char \<Rightarrow> bool" where
  "is_alnum c = (is_word c \<and> of_char c \<noteq> (95 :: nat))"

fun normalize_title_spec :: "string option \<Rightarrow> string" where
  "normalize_title_spec None = []"
| "normalize_title_spec (Some title) =
     join '' '' (split_ws (filter (\<lambda>c. is_alnum c \<or> is_space c) (lower title)))"

text \<open>\<open>s.strip()\<close>.\<close>

definition strip :: "string \<Rightarrow> string" where
  "strip s = rev (dropWhile is_space (rev (dropWhile is_space s)))"

section \<open>Errors\<close>

text \<open>
  The exceptions of the modelled code, as values: \<open>ParseError\<close> for a file that
  \<open>ET.parse\<close> rejects, \<open>KeyError\<close> for a column that a data frame does not have,
  \<open>ValueError\<close> for the explicit \<open>raise ValueError\<close> and for \<open>int\<close> of a non-number,
  \<open>AttributeError\<close> for \<open>.get\<close> on \<open>None\<close>. \<open>CycleError\<close> and \<open>AmbiguousPathError\<close>
  are the two names of the specification's error taxonomy; no statement of the source
  raises them, so no function below returns them.
\<close>

datatype error = ParseError | KeyError | ValueError | AttributeError
  | CycleError | AmbiguousPathError

text \<open>
  \<open>pd.DataFrame(rows)\<close> of a list of dictionaries has the union of their keys as columns:
  built from the empty list it has no column at all, and \<open>df['c']\<close> raises \<open>KeyError\<close>.
  A frame obtained from another by a boolean mask keeps the columns of the original.
  A frame is modelled as the list of its rows; \<open>column\<close> reads a column that every row of
  the frame's construction carries.
\<close>

definition column :: "('r \<Rightarrow> 'a) \<Rightarrow> 'r list \<Rightarrow> error + 'a list" where
  "column f df = (if df = [] then Inl KeyError else Inr (map f df))"

section \<open>Extraction from the RDF export\<close>

text \<open>
  The XML parser is outside the model. Its result is given as the values the source reads
  from it: for every element with an \<open>rdf:about\<close> attribute that attribute and the text of
  its first \<open>dc:title\<close> descendant; for every \<open>z:Collection\<close> element its \<open>rdf:about\<close>, the
  text of its \<open>dc:title\<close>, the \<open>rdf:resource\<close> of its first \<open>dcterms:isPartOf\<close> (\<open>None\<close> when
  the element or the attribute is missing) and the \<open>rdf:resource\<close> of each
  \<open>dcterms:hasPart\<close>.
\<close>

record rdf_item =
  ri_about :: "string option"
  ri_title :: "string option"

record rdf_collection =
  rc_about :: "string option"
  rc_title :: "string option"
  rc_is_part_of :: "string option"
  rc_has_part :: "string option list"

record rdf_root =
  rr_items :: "rdf_item list"
  rr_collections :: "rdf_collection list"

record item_row =
  i_item_id :: string
  i_title :: string
  i_normalized_title :: string
  i_library :: string

record collection_row =
  c_collection_id :: string
  c_title :: string
  c_parent_id :: "string option"
  c_library :: string
  c_website_path :: string
  c_depth :: int

record collection_item_row =
  ci_collection_id :: string
  ci_collection_title :: string
  ci_item_id :: string
  ci_library :: string
  ci_website_path :: string

text \<open>
  \<open>nx.DiGraph\<close>: the nodes in insertion order, each with its \<open>title\<close> attribute when
  one was given, and the edges. \<open>add_node\<close> of a node already present updates the
  attribute; \<open>add_edge\<close> adds the end points that are missing.
\<close>

record digraph =
  g_nodes :: "(string \<times> string option) list"
  g_edges :: "(string \<times> string) list"

definition DiGraph :: digraph where
  "DiGraph = \<lparr>g_nodes = [], g_edges = []\<rparr>"

fun dict_set :: "'k \<Rightarrow> 'v \<Rightarrow> ('k \<times> 'v) list \<Rightarrow> ('k \<times> 'v) list" where
  "dict_set k v [] = [(k, v)]"
| "dict_set k v (p # ps) = (if fst p = k then (k, v) # ps else p # dict_set k v ps)"

definition add_node :: "string \<Rightarrow> string \<Rightarrow> digraph \<Rightarrow> digraph" where
  "add_node n t g = g\<lparr>g_nodes := dict_set n (Some t) (g_nodes g)\<rparr>"

definition touch_node :: "string \<Rightarrow> digraph \<Rightarrow> digraph" where
  "touch_node n g =
     (if n \<in> fst ` set (g_nodes g) then g else g\<lparr>g_nodes := g_nodes g @ [(n, None)]\<rparr>)"

definition add_edge :: "string \<Rightarrow> string \<Rightarrow> digraph \<Rightarrow> digraph" where
  "add_edge u v g =
     (let g' = touch_node v (touch_node u g)
      in if (u, v) \<in> set (g_edges g') then g' else g'\<lparr>g_edges := g_edges g' @ [(u, v)]\<rparr>)"

text \<open>The website hierarchy: the JSON object of \<open>collection_mapping.json\<close>, collection id
  to path, in the order of the file.\<close>

type_synonym website_hierarchy = "(string \<times> string) list"

text \<open>\<open>self.website_hierarchy.get(coll_id, "")\<close> and the depth computed from it
  (lines 147 and 148).\<close>

definition website_path_of :: "website_hierarchy \<Rightarrow> string \<Rightarrow> string" where
  "website_path_of wh coll_id = (case map_of wh coll_id of None \<Rightarrow> [] | Some p \<Rightarrow> p)"

definition depth_of :: "string \<Rightarrow> int" where
  "depth_of website_path =
     (if website_path \<noteq> [] then int (length (split CHR ''/'' website_path)) - 1 else 0)"

text \<open>The loop over the elements with \<open>rdf:about\<close> (lines 110 to 120): one row for
  each element whose id and title text are both non-empty.\<close>

definition extract_item :: "string \<Rightarrow> rdf_item \<Rightarrow> item_row list" where
  "extract_item library_name item =
     (case ri_about item of
        None \<Rightarrow> []
      | Some item_id \<Rightarrow>
          if item_id = [] then []
          else (case ri_title item of
                  None \<Rightarrow> []
                | Some t \<Rightarrow>
                    if t = [] then []
                    else [\<lparr>i_item_id = item_id, i_title = t,
                           i_normalized_title = normalize_title (Some t),
                           i_library = library_name\<rparr>]))"

text \<open>The state of the loop over the collections (lines 123 to 169): the graph and the
  two lists of rows.\<close>

record collections_state =
  hierarchy_graph :: digraph
  collections_data :: "collection_row list"
  collection_items_data :: "collection_item_row list"

definition has_part_rows ::
  "string \<Rightarrow> string \<Rightarrow> string \<Rightarrow> string \<Rightarrow> string option list \<Rightarrow> collection_item_row list" where
  "has_part_rows coll_id t library_name website_path refs =
     concat (map (\<lambda>item_ref.
        case item_ref of
          None \<Rightarrow> []
        | Some item_id \<Rightarrow>
            if item_id = [] then []
            else [\<lparr>ci_collection_id = coll_id, ci_collection_title = t, ci_item_id = item_id,
                   ci_library = library_name, ci_website_path = website_path\<rparr>]) refs)"

definition extract_collection ::
  "website_hierarchy \<Rightarrow> string \<Rightarrow> collections_state \<Rightarrow> rdf_collection \<Rightarrow> collections_state" where
  "extract_collection wh library_name st collection =
     (case rc_about collection of
        None \<Rightarrow> st
      | Some coll_id \<Rightarrow>
          if coll_id = [] then st
          else (case rc_title collection of
                  None \<Rightarrow> st
                | Some t \<Rightarrow>
                    if t = [] then st
                    else
                      let g = add_node coll_id t (hierarchy_graph st);
                          parent = rc_is_part_of collection;
                          g' = (case parent of
                                  None \<Rightarrow> g
                                | Some p \<Rightarrow> if p = [] then g else add_edge p coll_id g);
                          website_path = website_path_of wh coll_id;
                          depth = depth_of website_path
                      in \<lparr>hierarchy_graph = g',
                          collections_data = collections_data st @
                            [\<lparr>c_collection_id = coll_id, c_title = t, c_parent_id = parent,
                              c_library = library_name, c_website_path = website_path,
                              c_depth = depth\<rparr>],
                          collection_items_data = collection_items_data st @
                            has_part_rows coll_id t library_name website_path
                              (rc_has_part collection)\<rparr>))"


text \<open>What \<open>extract_from_rdf\<close> returns, with the graph it stores in
  \<open>self.portal_hierarchy\<close> or \<open>self.search_hierarchy\<close>.\<close>

record extraction =
  items_df :: "item_row list"
  collections_df :: "collection_row list"
  collection_items_df :: "collection_item_row list"
  hierarchy :: digraph

text \<open>
  The body of the \<open>try\<close> block. The argument is the parsed document, \<open>None\<close> when
  \<open>ET.parse\<close> raises. Nothing after the parse raises: every read is guarded, and the graph
  takes any edge, whether or not it closes a cycle.
\<close>

definition extract_from_rdf_body ::
  "website_hierarchy \<Rightarrow> rdf_root option \<Rightarrow> string \<Rightarrow> error + extraction" where
  "extract_from_rdf_body wh tree library_name =
     (case tree of
        None \<Rightarrow> Inl ParseError
      | Some root_elem \<Rightarrow>
          let items_data = concat (map (extract_item library_name) (rr_items root_elem));
              st = foldl (extract_collection wh library_name)
                     \<lparr>hierarchy_graph = DiGraph, collections_data = [],
                      collection_items_data = []\<rparr>
                     (rr_collections root_elem)
          in Inr \<lparr>items_df = items_data, collections_df = collections_data st,
                  collection_items_df = collection_items_data st,
                  hierarchy = hierarchy_graph st\<rparr>)"

text \<open>\<open>extract_from_rdf\<close>: \<open>except Exception\<close> turns every error of the body into three
  empty frames; the stored graph is then the empty one of \<open>__init__\<close>.\<close>

definition extract_from_rdf ::
  "website_hierarchy \<Rightarrow> rdf_root option \<Rightarrow> string \<Rightarrow> extraction" where
  "extract_from_rdf wh tree library_name =
     (case extract_from_rdf_body wh tree library_name of
        Inl e \<Rightarrow> \<lparr>items_df = [], collections_df = [], collection_items_df = [],
                  hierarchy = DiGraph\<rparr>
      | Inr r \<Rightarrow> r)"

section \<open>Extraction from the deduplicated XML export\<close>

text \<open>
  Of a \<open>record\<close> element the model keeps what the overlap analysis reads: the text of the
  \<open>style\<close> element under \<open>titles/title\<close>, \<open>None\<close> when one of the elements is missing or the
  text is absent. A record without it has no \<open>title\<close> key and is not appended; every row
  appended has both \<open>title\<close> and \<open>normalized_title\<close>, so \<open>dropna()\<close> on that column has
  nothing to drop. The other fields (type, authors, journal, year) are not modelled.
\<close>

record xml_record =
  xr_title_style_text :: "string option"

record record_row =
  r_title :: string
  r_normalized_title :: string
  r_library :: string

definition extract_record :: "string \<Rightarrow> xml_record \<Rightarrow> record_row list" where
  "extract_record library_name rec =
     (case xr_title_style_text rec of
        None \<Rightarrow> []
      | Some text \<Rightarrow>
          if text = [] then []
          else [\<lparr>r_title = strip text, r_normalized_title = normalize_title (Some text),
                 r_library = library_name\<rparr>])"

text \<open>\<open>extract_from_dedup_xml\<close>; the argument is \<open>None\<close> when \<open>ET.parse\<close> raises, and the
  result is then the empty frame of the \<open>except\<close> branch.\<close>

definition extract_from_dedup_xml :: "xml_record list option \<Rightarrow> string \<Rightarrow> record_row list" where
  "extract_from_dedup_xml tree library_name =
     (case tree of
        None \<Rightarrow> []
      | Some records \<Rightarrow> concat (map (extract_record library_name) records))"

section \<open>Processing both libraries\<close>

datatype library = Portal | Search

fun library_name :: "library \<Rightarrow> string" where
  "library_name Portal = ''Portal''"
| "library_name Search = ''Search''"

subsection \<open>Overlap of the normalized titles (lines 299 to 307)\<close>

record overlap_result =
  res_portal_titles :: "string set"
  res_search_titles :: "string set"
  res_common_titles :: "string set"
  res_portal_only :: int
  res_search_only :: int
  res_overlap :: int

definition overlap_analysis :: "record_row list \<Rightarrow> record_row list \<Rightarrow> error + overlap_result" where
  "overlap_analysis portal_records search_records =
     (case column r_normalized_title portal_records of
        Inl e \<Rightarrow> Inl e
      | Inr pcol \<Rightarrow>
          (case column r_normalized_title search_records of
             Inl e \<Rightarrow> Inl e
           | Inr scol \<Rightarrow>
               let portal_titles = set pcol;
                   search_titles = set scol;
                   common_titles = portal_titles \<inter> search_titles
               in Inr \<lparr>res_portal_titles = portal_titles, res_search_titles = search_titles,
                       res_common_titles = common_titles,
                       res_portal_only = int (card portal_titles) - int (card common_titles),
                       res_search_only = int (card search_titles) - int (card common_titles),
                       res_overlap = int (card common_titles)\<rparr>))"

subsection \<open>The mapping from titles to collections (lines 316 to 375)\<close>

record collection_detail =
  d_id :: string
  d_title :: string
  d_path :: string
  d_depth :: int

text \<open>The entry appended for a membership row (lines 335 to 341), from the first row
  \<open>c\<close> of the collections frame that has the id.\<close>

definition collection_detail_of :: "string \<Rightarrow> collection_row \<Rightarrow> collection_detail" where
  "collection_detail_of coll_id c =
     (let website_path = c_website_path c
      in \<lparr>d_id = coll_id, d_title = c_title c,
          d_path = (if website_path \<noteq> [] then website_path else c_title c),
          d_depth = c_depth c\<rparr>)"

text \<open>The inner loop over the membership rows of one item. \<open>coll_info\<close> is the frame of
  the collections with the row's id; \<open>collections['collection_id']\<close> raises on a frame
  without columns.\<close>

fun details_loop ::
  "collection_row list \<Rightarrow> collection_item_row list \<Rightarrow> error + collection_detail list" where
  "details_loop collections [] = Inr []"
| "details_loop collections (coll_item # rest) =
     (let coll_id = ci_collection_id coll_item
      in case column c_collection_id collections of
           Inl e \<Rightarrow> Inl e
         | Inr _ \<Rightarrow>
             let coll_info = filter (\<lambda>c. c_collection_id c = coll_id) collections;
                 here = (case coll_info of
                           [] \<Rightarrow> []
                         | c # _ \<Rightarrow> [collection_detail_of coll_id c])
             in case details_loop collections rest of
                  Inl e \<Rightarrow> Inl e
                | Inr ds \<Rightarrow> Inr (here @ ds))"

text \<open>
  \<open>title_to_collections\<close>: a dictionary from normalized title to the two lists
  \<open>{'Portal': [...], 'Search': [...]}\<close>, in insertion order.
\<close>

record title_collections =
  tc_Portal :: "collection_detail list"
  tc_Search :: "collection_detail list"

type_synonym title_to_collections = "(string \<times> title_collections) list"

fun store_details ::
  "library \<Rightarrow> string \<Rightarrow> collection_detail list \<Rightarrow> title_to_collections \<Rightarrow> title_to_collections" where
  "store_details Portal norm_title ds m =
     (case map_of m norm_title of
        None \<Rightarrow> m @ [(norm_title, \<lparr>tc_Portal = ds, tc_Search = []\<rparr>)]
      | Some old \<Rightarrow> dict_set norm_title (old\<lparr>tc_Portal := ds\<rparr>) m)"
| "store_details Search norm_title ds m =
     (case map_of m norm_title of
        None \<Rightarrow> m @ [(norm_title, \<lparr>tc_Portal = [], tc_Search = ds\<rparr>)]
      | Some old \<Rightarrow> dict_set norm_title (old\<lparr>tc_Search := ds\<rparr>) m)"

text \<open>
  The loop over the items of one library; the source has it twice, once for each library,
  with the names exchanged. \<open>collection_items['item_id']\<close> raises on a frame without
  columns; an item without membership rows leaves the dictionary as it is.
\<close>

fun items_loop ::
  "library \<Rightarrow> collection_row list \<Rightarrow> collection_item_row list \<Rightarrow> item_row list \<Rightarrow>
   title_to_collections \<Rightarrow> error + title_to_collections" where
  "items_loop lib collections collection_items [] m = Inr m"
| "items_loop lib collections collection_items (item # items) m =
     (case column ci_item_id collection_items of
        Inl e \<Rightarrow> Inl e
      | Inr _ \<Rightarrow>
          let item_collections = filter (\<lambda>ci. ci_item_id ci = i_item_id item) collection_items
          in if item_collections = [] then items_loop lib collections collection_items items m
             else (case details_loop collections item_collections of
                     Inl e \<Rightarrow> Inl e
                   | Inr collection_details \<Rightarrow>
                       items_loop lib collections collection_items items
                         (store_details lib (i_normalized_title item) collection_details m)))"

subsection \<open>Notions for the mapping from titles to collections\<close>

text \<open>
  \<open>item_collections_of\<close> is the frame \<open>item_collections\<close> of an item (lines 326 and 355), its
  membership rows; \<open>library_entry\<close> and \<open>set_library_entry\<close> read and assign the entry
  \<open>['Portal']\<close> or \<open>['Search']\<close> of a value of the dictionary; \<open>entry_or_empty\<close> is the value
  of a title, with two empty lists for a title that is not a key; \<open>filed_items\<close> are the
  items with a given normalized title that have at least one membership row.
\<close>

definition item_collections_of :: "collection_item_row list \<Rightarrow> item_row \<Rightarrow> collection_item_row list" where
  "item_collections_of collection_items item =
     filter (\<lambda>ci. ci_item_id ci = i_item_id item) collection_items"

fun library_entry :: "library \<Rightarrow> title_collections \<Rightarrow> collection_detail list" where
  "library_entry Portal tc = tc_Portal tc"
| "library_entry Search tc = tc_Search tc"

fun set_library_entry :: "library \<Rightarrow> collection_detail list \<Rightarrow> title_collections \<Rightarrow> title_collections" where
  "set_library_entry Portal ds tc = tc\<lparr>tc_Portal := ds\<rparr>"
| "set_library_entry Search ds tc = tc\<lparr>tc_Search := ds\<rparr>"

definition entry_or_empty :: "title_to_collections \<Rightarrow> string \<Rightarrow> title_collections" where
  "entry_or_empty m t =
     (case map_of m t of None \<Rightarrow> \<lparr>tc_Portal = [], tc_Search = []\<rparr> | Some old \<Rightarrow> old)"

definition filed_items :: "collection_item_row list \<Rightarrow> string \<Rightarrow> item_row list \<Rightarrow> item_row list" where
  "filed_items CI t items =
     filter (\<lambda>item. i_normalized_title item = t \<and> item_collections_of CI item \<noteq> []) items"

subsection \<open>The collection analysis frame (lines 377 to 412)\<close>

record analysis_row =
  a_normalized_title :: string
  a_library :: string
  a_collection_id :: string
  a_collection_title :: string
  a_collection_path :: string
  a_collection_depth :: int
  a_is_overlap :: bool

definition analysis_row_of :: "string \<Rightarrow> string \<Rightarrow> bool \<Rightarrow> collection_detail \<Rightarrow> analysis_row" where
  "analysis_row_of norm_title lib is_overlap coll =
     \<lparr>a_normalized_title = norm_title, a_library = lib, a_collection_id = d_id coll,
      a_collection_title = d_title coll, a_collection_path = d_path coll,
      a_collection_depth = d_depth coll, a_is_overlap = is_overlap\<rparr>"

definition title_rows :: "string set \<Rightarrow> string \<times> title_collections \<Rightarrow> analysis_row list" where
  "title_rows common_titles entry =
     (let norm_title = fst entry;
          portal_colls = tc_Portal (snd entry);
          search_colls = tc_Search (snd entry);
          is_overlap = (norm_title \<in> common_titles)
      in map (analysis_row_of norm_title ''Portal'' is_overlap) portal_colls @
         map (analysis_row_of norm_title ''Search'' is_overlap) search_colls)"

definition collection_data :: "string set \<Rightarrow> title_to_collections \<Rightarrow> analysis_row list" where
  "collection_data common_titles m = concat (map (title_rows common_titles) m)"

subsection \<open>The collection statistics (lines 414 to 426)\<close>

text \<open>
  The percentage is a float in the source. The model computes it in the rationals:
  the quotient is exact, and \<open>.round(2)\<close> is rounding to the nearest multiple of 1/100,
  a tie going to the even one.
\<close>

definition round_half_even :: "rat \<Rightarrow> int" where
  "round_half_even q =
     (let f = \<lfloor>q\<rfloor>; d = q - of_int f
      in if d < 1 / 2 then f else if 1 / 2 < d then f + 1 else if even f then f else f + 1)"

definition round2 :: "rat \<Rightarrow> rat" where
  "round2 q = of_int (round_half_even (q * 100)) / 100"

type_synonym group_key = "string \<times> string \<times> string \<times> int"

definition group_key :: "analysis_row \<Rightarrow> group_key" where
  "group_key r = (a_library r, a_collection_path r, a_collection_title r, a_collection_depth r)"

text \<open>\<open>df.groupby(keys).size().reset_index(name=...)\<close>: one row for each key that occurs,
  in ascending order of the keys, with the number of rows that have it.\<close>

definition groupby_size :: "analysis_row list \<Rightarrow> (group_key \<times> int) list" where
  "groupby_size df =
     map (\<lambda>k. (k, int (length (filter (\<lambda>r. group_key r = k) df))))
       (sort (remdups (map group_key df)))"

record collection_stat =
  s_library :: string
  s_collection_path :: string
  s_collection_title :: string
  s_collection_depth :: int
  s_total_items :: int
  s_overlap_items :: int
  s_overlap_percentage :: rat

text \<open>One row of the merged frame: the left merge leaves \<open>overlap_items\<close> missing where no
  row of the group is an overlap, \<open>fillna(0)\<close> makes it 0.\<close>

definition stat_row :: "(group_key \<times> int) list \<Rightarrow> group_key \<times> int \<Rightarrow> collection_stat" where
  "stat_row overlap_by_collection row =
     (case row of ((lib, path, title, depth), total_items) \<Rightarrow>
        let overlap_items =
              (case map_of overlap_by_collection (lib, path, title, depth) of
                 None \<Rightarrow> 0
               | Some n \<Rightarrow> n)
        in \<lparr>s_library = lib, s_collection_path = path, s_collection_title = title,
            s_collection_depth = depth, s_total_items = total_items,
            s_overlap_items = overlap_items,
            s_overlap_percentage = round2 (of_int overlap_items / of_int total_items * 100)\<rparr>)"

text \<open>The frame built from an empty \<open>collection_data\<close> has no columns, and \<open>groupby\<close>
  raises \<open>KeyError\<close> on it. \<open>sort_values\<close> on two columns is stable.\<close>

definition collection_statistics :: "analysis_row list \<Rightarrow> error + collection_stat list" where
  "collection_statistics collection_analysis_df =
     (if collection_analysis_df = [] then Inl KeyError
      else
        let collection_stats = groupby_size collection_analysis_df;
            overlap_by_collection = groupby_size (filter a_is_overlap collection_analysis_df);
            merged = map (stat_row overlap_by_collection) collection_stats
        in Inr (sort_key (\<lambda>s. (s_library s, s_collection_path s)) merged))"

subsection \<open>\<open>process_libraries\<close>\<close>

text \<open>The result dictionary \<open>self.analysis_results\<close>, without the three concatenated
  input frames; the field \<open>res_k\<close> is the entry \<open>'k'\<close>.\<close>

record analysis_results = overlap_result +
  res_title_to_collections :: title_to_collections
  res_collection_analysis :: "analysis_row list"
  res_collection_stats :: "collection_stat list"

definition process_libraries ::
  "website_hierarchy \<Rightarrow> rdf_root option \<Rightarrow> xml_record list option \<Rightarrow>
   rdf_root option \<Rightarrow> xml_record list option \<Rightarrow> error + analysis_results" where
  "process_libraries wh portal_rdf portal_xml search_rdf search_xml =
     (let portal = extract_from_rdf wh portal_rdf ''Portal'';
          portal_records = extract_from_dedup_xml portal_xml ''Portal'';
          search = extract_from_rdf wh search_rdf ''Search'';
          search_records = extract_from_dedup_xml search_xml ''Search''
      in case overlap_analysis portal_records search_records of
           Inl e \<Rightarrow> Inl e
         | Inr ov \<Rightarrow>
             (case items_loop Portal (collections_df portal) (collection_items_df portal)
                     (items_df portal) [] of
                Inl e \<Rightarrow> Inl e
              | Inr m1 \<Rightarrow>
                  (case items_loop Search (collections_df search) (collection_items_df search)
                          (items_df search) m1 of
                     Inl e \<Rightarrow> Inl e
                   | Inr m \<Rightarrow>
                       let collection_analysis_df = collection_data (res_common_titles ov) m
                       in case collection_statistics collection_analysis_df of
                            Inl e \<Rightarrow> Inl e
                          | Inr stats \<Rightarrow>
                              Inr (overlap_result.extend ov
                                     \<lparr>res_title_to_collections = m,
                                      res_collection_analysis = collection_analysis_df,
                                      res_collection_stats = stats\<rparr>))))"

section \<open>Gap ranking\<close>

text \<open>\<open>identify_collection_gaps\<close>; the first argument is \<open>self.analysis_results\<close>, \<open>None\<close>
  before \<open>process_libraries\<close> has run.\<close>

definition identify_collection_gaps ::
  "analysis_results option \<Rightarrow> int \<Rightarrow> error + collection_stat list" where
  "identify_collection_gaps results min_items =
     (case results of
        None \<Rightarrow> Inl ValueError
      | Some r \<Rightarrow>
          let significant_collections =
                filter (\<lambda>s. min_items \<le> s_total_items s) (res_collection_stats r)
          in Inr (sort_key (\<lambda>s. (s_overlap_percentage s, s_collection_path s))
                    significant_collections))"

section \<open>Export of the website hierarchy\<close>


text \<open>The inner loop (lines 898 to 902): the id of the first entry, in the order of the
  dictionary, whose path is the parent path; the empty string when there is none.\<close>

fun find_parent_id :: "website_hierarchy \<Rightarrow> string \<Rightarrow> string" where
  "find_parent_id [] parent_path = []"
| "find_parent_id ((p_id, p_path) # rest) parent_path =
     (if p_path = parent_path then p_id else find_parent_id rest parent_path)"



section \<open>The collection tree of the website\<close>

text \<open>
  \<open>parse_website_hierarchy.py\<close>. The HTML parser is outside the model; of every
  \<open>li.collection\<close> element the model has what the source reads: its first
  \<open>div.item-container\<close> (\<open>None\<close> when there is none) with the attributes
  \<open>data-collection-key\<close>, \<open>aria-level\<close> and \<open>aria-expanded\<close>, the \<open>title\<close> attribute of its
  first \<open>div.truncate\<close>, and the container of the nearest enclosing \<open>li.collection\<close>.
  The attribute \<open>aria-level\<close> is absent, a number, or a text that \<open>int\<close> rejects.
\<close>

datatype aria_level = NoLevel | LevelText int | LevelNotInt

record item_container =
  ic_data_collection_key :: "string option"
  ic_aria_level :: aria_level
  ic_aria_expanded :: "string option"

record dom_item =
  it_container :: "item_container option"
  it_truncate_title :: "string option option"
  it_parent_container :: "item_container option option"

record tree_node =
  n_title :: "string option"
  n_level :: int
  n_has_children :: bool
  n_children :: "string option list"

type_synonym collection_tree = "(string option \<times> tree_node) list"

text \<open>The first loop of \<open>parse_collection_hierarchy\<close> (lines 39 to 60).\<close>

fun add_items :: "dom_item list \<Rightarrow> collection_tree \<Rightarrow> error + collection_tree" where
  "add_items [] collection_tree = Inr collection_tree"
| "add_items (item # items) collection_tree =
     (case it_container item of
        None \<Rightarrow> Inl AttributeError
      | Some c \<Rightarrow>
          let collection_id = ic_data_collection_key c;
              collection_title =
                (case it_truncate_title item of None \<Rightarrow> Some ''Unknown'' | Some a \<Rightarrow> a)
          in (case ic_aria_level c of
                LevelNotInt \<Rightarrow> Inl ValueError
              | NoLevel \<Rightarrow>
                  add_items items
                    (dict_set collection_id
                       \<lparr>n_title = collection_title, n_level = 2,
                        n_has_children = (ic_aria_expanded c \<noteq> None), n_children = []\<rparr>
                       collection_tree)
              | LevelText level \<Rightarrow>
                  add_items items
                    (dict_set collection_id
                       \<lparr>n_title = collection_title, n_level = level,
                        n_has_children = (ic_aria_expanded c \<noteq> None), n_children = []\<rparr>
                       collection_tree)))"

text \<open>The second loop (lines 63 to 72).\<close>

fun link_items :: "dom_item list \<Rightarrow> collection_tree \<Rightarrow> error + collection_tree" where
  "link_items [] collection_tree = Inr collection_tree"
| "link_items (item # items) collection_tree =
     (case it_container item of
        None \<Rightarrow> Inl AttributeError
      | Some c \<Rightarrow>
          let collection_id = ic_data_collection_key c
          in (case it_parent_container item of
                None \<Rightarrow> link_items items collection_tree
              | Some None \<Rightarrow> Inl AttributeError
              | Some (Some pc) \<Rightarrow>
                  let parent_id = ic_data_collection_key pc
                  in (case map_of collection_tree parent_id of
                        None \<Rightarrow> link_items items collection_tree
                      | Some node \<Rightarrow>
                          link_items items
                            (dict_set parent_id
                               (node\<lparr>n_children := n_children node @ [collection_id]\<rparr>)
                               collection_tree))))"

definition parse_collection_hierarchy :: "dom_item list \<Rightarrow> error + collection_tree" where
  "parse_collection_hierarchy collection_items =
     (case add_items collection_items [] of
        Inl e \<Rightarrow> Inl e
      | Inr collection_tree \<Rightarrow> link_items collection_items collection_tree)"

text \<open>The containers that the loops of \<open>parse_collection_hierarchy\<close> read, in the order of
  the items.\<close>

definition containers :: "dom_item list \<Rightarrow> item_container list" where
  "containers collection_items =
     concat (map (\<lambda>item. case it_container item of None \<Rightarrow> [] | Some c \<Rightarrow> [c]) collection_items)"

text \<open>The collections at which \<open>extract_full_paths\<close> starts \<open>build_path\<close> with the empty
  path (lines 109 to 111), in the order of the dictionary.\<close>

definition root_collections :: "collection_tree \<Rightarrow> string option list" where
  "root_collections collection_tree =
     map fst (filter (\<lambda>(collection_id, collection). n_level collection = 2) collection_tree)"

text \<open>
  The root nodes in the specification's words, for comparison: the nodes at the minimum
  observed level.
\<close>

definition min_level_collections :: "collection_tree \<Rightarrow> string option list" where
  "min_level_collections collection_tree =
     map fst (filter (\<lambda>(collection_id, collection).
                list_all (\<lambda>(k, other). n_level collection \<le> n_level other) collection_tree)
              collection_tree)"

section \<open>Example inputs\<close>



text \<open>The records of the Search library in the scenario of the specification.\<close>

definition example_search_xml :: "xml_record list" where
  "example_search_xml = [\<lparr>xr_title_style_text = Some ''Salmon Habitat''\<rparr>,
      \<lparr>xr_title_style_text = Some ''Forest Fire Risk''\<rparr>]"







text \<open>Two items of the website tree: one at level 1, and inside it one without the
  attribute \<open>aria-level\<close>; and the tree parsed from them.\<close>

definition library_container :: item_container where
  "library_container =
     \<lparr>ic_data_collection_key = Some ''k1'', ic_aria_level = LevelText 1,
      ic_aria_expanded = Some ''true''\<rparr>"

definition fish_container :: item_container where
  "fish_container =
     \<lparr>ic_data_collection_key = Some ''k2'', ic_aria_level = NoLevel, ic_aria_expanded = None\<rparr>"

definition level_items :: "dom_item list" where
  "level_items =
     [\<lparr>it_container = Some library_container, it_truncate_title = Some (Some ''Library''),
       it_parent_container = None\<rparr>,
      \<lparr>it_container = Some fish_container, it_truncate_title = Some (Some ''Fish''),
       it_parent_container = Some (Some library_container)\<rparr>]"

definition level_tree :: collection_tree where
  "level_tree =
     [(Some ''k1'', \<lparr>n_title = Some ''Library'', n_level = 1, n_has_children = True,
                     n_children = [Some ''k2'']\<rparr>),
      (Some ''k2'', \<lparr>n_title = Some ''Fish'', n_level = 2, n_has_children = False,
                     n_children = []\<rparr>)]"


definition example_search_rdf :: rdf_root where
  "example_search_rdf =
     \<lparr>rr_items = [\<lparr>ri_about = Some ''item2'', ri_title = Some ''salmon habitat!''\<rparr>],
      rr_collections =
        [\<lparr>rc_about = Some ''S'', rc_title = Some ''Rivers'', rc_is_part_of = None,
          rc_has_part = [Some ''item2'']\<rparr>]\<rparr>"

definition example_portal_xml :: "xml_record list" where
  "example_portal_xml = [\<lparr>xr_title_style_text = Some ''Salmon Habitat''\<rparr>,
      \<lparr>xr_title_style_text = Some ''salmon   HABITAT!''\<rparr>,
      \<lparr>xr_title_style_text = Some ''Water Quality''\<rparr>]"


text \<open>
  Two Portal exports whose two items have the same normalized title: in the first the
  items are in the collections \<open>A\<close> and \<open>B\<close>, in the second the later item is in no
  collection.
\<close>

definition duplicate_rdf :: rdf_root where
  "duplicate_rdf =
     \<lparr>rr_items = [\<lparr>ri_about = Some ''item1'', ri_title = Some ''Salmon Habitat''\<rparr>,
                  \<lparr>ri_about = Some ''item2'', ri_title = Some ''salmon habitat!''\<rparr>],
      rr_collections =
        [\<lparr>rc_about = Some ''A'', rc_title = Some ''Fish'', rc_is_part_of = None,
          rc_has_part = [Some ''item1'']\<rparr>,
         \<lparr>rc_about = Some ''B'', rc_title = Some ''Salmon'', rc_is_part_of = None,
          rc_has_part = [Some ''item2'']\<rparr>]\<rparr>"

definition unfiled_duplicate_rdf :: rdf_root where
  "unfiled_duplicate_rdf =
     \<lparr>rr_items = [\<lparr>ri_about = Some ''item1'', ri_title = Some ''Salmon Habitat''\<rparr>,
                  \<lparr>ri_about = Some ''item2'', ri_title = Some ''salmon habitat!''\<rparr>],
      rr_collections =
        [\<lparr>rc_about = Some ''A'', rc_title = Some ''Fish'', rc_is_part_of = None,
          rc_has_part = [Some ''item1'']\<rparr>]\<rparr>"

section \<open>Properties of the title normalizer\<close>

lemma lower_char_idem: "lower_char (lower_char c) = lower_char c"
proof -
  have b: "(of_char c :: nat) < 256" by simp
  show ?thesis
    unfolding lower_char_def Let_def
    using b by (auto simp: of_char_of)
qed

lemma lower_char_space: "is_space c \<Longrightarrow> lower_char c = c"
  by (auto simp: is_space_def lower_char_def Let_def)

lemma split_ws_from_nonspace:
  "\<forall>c\<in>set w. \<not> is_space c \<Longrightarrow> split_ws_from cur (w @ rest) = split_ws_from (cur @ w) rest"
  by (induction w arbitrary: cur) auto

lemma split_ws_join:
  "\<forall>w\<in>set ws. w \<noteq> [] \<and> (\<forall>c\<in>set w. \<not> is_space c) \<Longrightarrow> split_ws_from [] (join '' '' ws) = ws"
proof (induction ws)
  case Nil
  then show ?case by simp
next
  case (Cons w ws)
  have sp: "is_space CHR '' ''" by (simp add: is_space_def)
  show ?case
  proof (cases ws)
    case Nil
    then show ?thesis using Cons.prems split_ws_from_nonspace[of w "[]" "[]"] by simp
  next
    case (Cons v va)
    have "split_ws_from [] (join '' '' (w # ws)) = split_ws_from w ('' '' @ join '' '' ws)"
      using Cons.prems Cons split_ws_from_nonspace[of w "[]"] by simp
    also have "\<dots> = w # split_ws_from [] (join '' '' ws)" using Cons.prems sp by simp
    finally show ?thesis using Cons.IH Cons.prems by simp
  qed
qed

lemma split_ws_from_words:
  "\<forall>c\<in>set cur. \<not> is_space c \<Longrightarrow> w \<in> set (split_ws_from cur s) \<Longrightarrow>
     w \<noteq> [] \<and> (\<forall>c\<in>set w. \<not> is_space c \<and> c \<in> set cur \<union> set s)"
proof (induction cur s rule: split_ws_from.induct)
  case (1 cur)
  then show ?case by (auto split: if_splits)
next
  case (2 cur c cs)
  then show ?case by (fastforce split: if_splits)
qed

lemma set_join: "set (join sep ws) \<subseteq> set sep \<union> \<Union>(set ` set ws)"
  by (induction sep ws rule: join.induct) auto

lemma normalized_chars:
  assumes "c \<in> set (join '' '' (split_ws (re_sub_nonword_nonspace (lower t))))"
  shows "lower_char c = c \<and> (is_word c \<or> is_space c)"
proof -
  have sp: "is_space CHR '' ''" by (simp add: is_space_def)
  let ?f = "re_sub_nonword_nonspace (lower t)"
  from assms consider "c = CHR '' ''" | w where "w \<in> set (split_ws ?f)" "c \<in> set w"
    using set_join[of "'' ''" "split_ws ?f"] by auto
  then show ?thesis
  proof cases
    case 1
    then show ?thesis using sp lower_char_space by simp
  next
    case 2
    then have "c \<in> set ?f" using split_ws_from_words[of "[]" w ?f] by (auto simp: split_ws_def)
    then show ?thesis by (auto simp: re_sub_nonword_nonspace_def lower_def lower_char_idem)
  qed
qed

lemma normalized_fixed:
  assumes r: "r = join '' '' (split_ws (re_sub_nonword_nonspace (lower t)))"
  shows "join '' '' (split_ws (re_sub_nonword_nonspace (lower r))) = r"
proof -
  let ?ws = "split_ws (re_sub_nonword_nonspace (lower t))"
  have c: "\<forall>c\<in>set r. lower_char c = c \<and> (is_word c \<or> is_space c)"
    using normalized_chars[of _ t] r by blast
  have l: "lower r = r"
    using c by (simp add: lower_def map_idI)
  have f: "re_sub_nonword_nonspace r = r"
    using c by (simp add: re_sub_nonword_nonspace_def)
  have w: "\<forall>w\<in>set ?ws. w \<noteq> [] \<and> (\<forall>c\<in>set w. \<not> is_space c)"
    using split_ws_from_words[of "[]" _ "re_sub_nonword_nonspace (lower t)"]
    by (auto simp: split_ws_def)
  have s: "split_ws r = ?ws"
    unfolding r split_ws_def using split_ws_join[OF w] by (simp add: split_ws_def)
  show ?thesis using l f s r by simp
qed

text \<open>
  Claim C4, at the input \<open>a_b\<close>: the underscore is neither alphanumeric nor whitespace, so
  the normalizer of the specification deletes it; \<open>normalize_title\<close> keeps it, because the
  class \<open>\w\<close> of its regular expression contains the underscore.
\<close>

theorem normalize_title_keeps_underscore:
  "normalize_title (Some ''a_b'') = ''a_b'' \<and> normalize_title_spec (Some ''a_b'') = ''ab''"
  by code_simp

text \<open>
  Claim C9: title normalization is idempotent: normalizing a normalized title gives it
  back, for every title, the absent one included.
\<close>

theorem normalize_title_idempotent:
  "normalize_title (Some (normalize_title x)) = normalize_title x"
proof (cases x)
  case None
  then show ?thesis by simp
next
  case (Some t)
  show ?thesis using Some normalized_fixed[OF refl, of t] by simp
qed

section \<open>Properties of the gap ranking\<close>

lemma rank_sorted:
  "sorted_wrt (\<lambda>a b. s_overlap_percentage a < s_overlap_percentage b \<or>
        (s_overlap_percentage a = s_overlap_percentage b \<and> s_collection_path a \<le> s_collection_path b))
     (sort_key (\<lambda>s. (s_overlap_percentage s, s_collection_path s)) xs)"
proof -
  let ?f = "\<lambda>s. (s_overlap_percentage s, s_collection_path s)"
  have "sorted (map ?f (sort_key ?f xs))" by (rule sorted_sort_key)
  then have "sorted_wrt (\<lambda>a b. ?f a \<le> ?f b) (sort_key ?f xs)" by (simp add: sorted_map)
  then show ?thesis by (rule sorted_wrt_mono_rel[rotated]) auto
qed

text \<open>
  Claim C5: for every list of collection statistics and every threshold, the gap ranking
  returns exactly the rows with at least \<open>min_items\<close> total items (as a multiset), in
  ascending order of the overlap percentage, rows of equal percentage in ascending order of
  the collection path. Rows that agree in both keep the order of the input, so the result
  is one fixed list: running the ranking again gives the same order.
\<close>

theorem identify_collection_gaps_ranked:
  "\<exists>gaps. identify_collection_gaps (Some r) min_items = Inr gaps
     \<and> mset gaps = filter_mset (\<lambda>s. min_items \<le> s_total_items s) (mset (res_collection_stats r))
     \<and> sorted_wrt (\<lambda>a b. s_overlap_percentage a < s_overlap_percentage b \<or>
          (s_overlap_percentage a = s_overlap_percentage b \<and> s_collection_path a \<le> s_collection_path b)) gaps
     \<and> (\<forall>p c. filter (\<lambda>s. s_overlap_percentage s = p \<and> s_collection_path s = c) gaps =
          filter (\<lambda>s. s_overlap_percentage s = p \<and> s_collection_path s = c)
            (filter (\<lambda>s. min_items \<le> s_total_items s) (res_collection_stats r)))"
proof -
  let ?f = "\<lambda>s. (s_overlap_percentage s, s_collection_path s)"
  let ?sig = "filter (\<lambda>s. min_items \<le> s_total_items s) (res_collection_stats r)"
  have d: "identify_collection_gaps (Some r) min_items = Inr (sort_key ?f ?sig)"
    by (simp add: identify_collection_gaps_def)
  have st: "filter (\<lambda>s. s_overlap_percentage s = p \<and> s_collection_path s = c) (sort_key ?f ?sig) =
          filter (\<lambda>s. s_overlap_percentage s = p \<and> s_collection_path s = c) ?sig" for p c
    using sort_key_stable[of ?f "(p, c)" ?sig] by simp
  show ?thesis
    unfolding d using rank_sorted[of ?sig] st by simp
qed

section \<open>Properties of the collection statistics\<close>









section \<open>Properties of the overlap analysis\<close>

text \<open>
  Claim C2, at an empty record list: the frame of the Portal records has no rows, hence no
  column \<open>normalized_title\<close>, and reading it raises \<open>KeyError\<close>: the overlap analysis, and
  with it \<open>process_libraries\<close>, ends in the error instead of returning overlap 0.
\<close>

theorem overlap_analysis_empty_records_raise:
  "overlap_analysis (extract_from_dedup_xml (Some []) ''Portal'')
      (extract_from_dedup_xml (Some example_search_xml) ''Search'') = Inl KeyError
   \<and> process_libraries [] None (Some []) None (Some example_search_xml) = Inl KeyError"
  by code_simp

text \<open>On two frames with rows the analysis returns the two title sets, their
  intersection and the three counts; on a frame without rows it raises.\<close>

lemma overlap_analysis_nonempty:
  assumes "portal_records \<noteq> []" and "search_records \<noteq> []"
  shows "overlap_analysis portal_records search_records =
     Inr \<lparr>res_portal_titles = r_normalized_title ` set portal_records,
          res_search_titles = r_normalized_title ` set search_records,
          res_common_titles = r_normalized_title ` set portal_records \<inter> r_normalized_title ` set search_records,
          res_portal_only = int (card (r_normalized_title ` set portal_records))
             - int (card (r_normalized_title ` set portal_records \<inter> r_normalized_title ` set search_records)),
          res_search_only = int (card (r_normalized_title ` set search_records))
             - int (card (r_normalized_title ` set portal_records \<inter> r_normalized_title ` set search_records)),
          res_overlap = int (card (r_normalized_title ` set portal_records \<inter> r_normalized_title ` set search_records))\<rparr>"
  using assms by (simp add: overlap_analysis_def column_def Let_def)

lemma overlap_analysis_empty:
  "overlap_analysis [] search_records = Inl KeyError"
  "overlap_analysis portal_records [] = Inl KeyError"
  by (simp_all add: overlap_analysis_def column_def)

section \<open>Properties of the collection rows\<close>




lemma length_split_from: "0 < length (split_from sep cur s)"
  by (induction s arbitrary: cur) auto



section \<open>Properties of the exported website hierarchy\<close>


lemma find_parent_id_none:
  "parent_path \<notin> snd ` set wh \<Longrightarrow> find_parent_id wh parent_path = []"
  by (induction wh parent_path rule: find_parent_id.induct) auto




section \<open>Properties of the website tree\<close>

lemma map_of_dict_set: "map_of (dict_set k v t) = (map_of t)(k \<mapsto> v)"
  by (induction t) auto

lemma keys_dict_set: "fst ` set (dict_set k v t) = insert k (fst ` set t)"
  by (induction t) auto

lemma distinct_dict_set: "distinct (map fst t) \<Longrightarrow> distinct (map fst (dict_set k v t))"
proof (induction t)
  case Nil
  then show ?case by simp
next
  case (Cons p t)
  then show ?case using keys_dict_set[of k v t] by (auto simp: image_iff)
qed

lemma find_in_set: "find P xs = Some x \<Longrightarrow> x \<in> set xs"
  by (induction xs) (auto split: if_splits)

lemma find_snoc:
  "find P (xs @ [c]) = (case find P xs of Some x \<Rightarrow> Some x | None \<Rightarrow> if P c then Some c else None)"
  by (induction xs) auto

lemma add_items_step:
  assumes "add_items (item # items) t = Inr t'"
  shows "\<exists>c node. it_container item = Some c \<and> ic_aria_level c \<noteq> LevelNotInt
           \<and> n_level node = (case ic_aria_level c of LevelText n \<Rightarrow> n | _ \<Rightarrow> 2)
           \<and> add_items items (dict_set (ic_data_collection_key c) node t) = Inr t'"
proof (cases "it_container item")
  case None
  with assms show ?thesis by simp
next
  case (Some c)
  let ?title = "case it_truncate_title item of None \<Rightarrow> Some ''Unknown'' | Some a \<Rightarrow> a"
  show ?thesis
  proof (cases "ic_aria_level c")
    case NoLevel
    let ?node = "\<lparr>n_title = ?title, n_level = 2,
        n_has_children = (ic_aria_expanded c \<noteq> None), n_children = []\<rparr>"
    from assms Some NoLevel
    have "add_items items (dict_set (ic_data_collection_key c) ?node t) = Inr t'"
      by (simp add: Let_def)
    with Some NoLevel show ?thesis
      by (intro exI[of _ c] exI[of _ ?node]) simp
  next
    case (LevelText n)
    let ?node = "\<lparr>n_title = ?title, n_level = n,
        n_has_children = (ic_aria_expanded c \<noteq> None), n_children = []\<rparr>"
    from assms Some LevelText
    have "add_items items (dict_set (ic_data_collection_key c) ?node t) = Inr t'"
      by (simp add: Let_def)
    with Some LevelText show ?thesis
      by (intro exI[of _ c] exI[of _ ?node]) simp
  next
    case LevelNotInt
    with assms Some show ?thesis by (simp add: Let_def)
  qed
qed

lemma containers_Cons:
  "it_container item = Some c \<Longrightarrow> containers (item # items) = c # containers items"
  by (simp add: containers_def)

lemma add_items_levels:
  assumes "add_items collection_items t = Inr t'"
  shows "map_option n_level (map_of t' k) =
           (case find (\<lambda>c. ic_data_collection_key c = k) (rev (containers collection_items)) of
              Some c \<Rightarrow> Some (case ic_aria_level c of LevelText n \<Rightarrow> n | _ \<Rightarrow> 2)
            | None \<Rightarrow> map_option n_level (map_of t k))
         \<and> (\<forall>c\<in>set (containers collection_items). ic_aria_level c \<noteq> LevelNotInt)
         \<and> (distinct (map fst t) \<longrightarrow> distinct (map fst t'))"
  using assms
proof (induction collection_items arbitrary: t)
  case Nil
  then show ?case by (simp add: containers_def)
next
  case (Cons item items)
  from add_items_step[OF Cons.prems] obtain c node where c: "it_container item = Some c"
    and nn: "ic_aria_level c \<noteq> LevelNotInt"
    and lv: "n_level node = (case ic_aria_level c of LevelText n \<Rightarrow> n | _ \<Rightarrow> 2)"
    and step: "add_items items (dict_set (ic_data_collection_key c) node t) = Inr t'"
    by (elim exE conjE)
  note cs = containers_Cons[OF c, of items]
  note ih = Cons.IH[OF step]
  let ?P = "\<lambda>c. ic_data_collection_key c = k"
  have f: "find ?P (rev (containers (item # items))) =
      (case find ?P (rev (containers items)) of Some x \<Rightarrow> Some x
         | None \<Rightarrow> if ?P c then Some c else None)"
    unfolding cs by (simp add: find_snoc)
  have m: "map_option n_level (map_of (dict_set (ic_data_collection_key c) node t) k) =
      (if ?P c then Some (case ic_aria_level c of LevelText n \<Rightarrow> n | _ \<Rightarrow> 2)
       else map_option n_level (map_of t k))"
    by (simp add: map_of_dict_set lv)
  have 1: "map_option n_level (map_of t' k) =
           (case find ?P (rev (containers (item # items))) of
              Some c \<Rightarrow> Some (case ic_aria_level c of LevelText n \<Rightarrow> n | _ \<Rightarrow> 2)
            | None \<Rightarrow> map_option n_level (map_of t k))"
    unfolding f using ih[THEN conjunct1] m by (cases "find ?P (rev (containers items))") simp_all
  have 2: "\<forall>c\<in>set (containers (item # items)). ic_aria_level c \<noteq> LevelNotInt"
    unfolding cs using ih[THEN conjunct2, THEN conjunct1] nn by simp
  have 3: "distinct (map fst t) \<longrightarrow> distinct (map fst t')"
    using ih[THEN conjunct2, THEN conjunct2] distinct_dict_set[of t "ic_data_collection_key c" node]
    by simp
  show ?case by (rule conjI[OF 1 conjI[OF 2 3]])
qed

lemma link_items_levels:
  assumes "link_items collection_items t = Inr t'"
  shows "map_option n_level (map_of t' k) = map_option n_level (map_of t k)
         \<and> (distinct (map fst t) \<longrightarrow> distinct (map fst t'))"
  using assms
proof (induction collection_items arbitrary: t)
  case Nil
  then show ?case by simp
next
  case (Cons item items)
  from Cons.prems obtain c where c: "it_container item = Some c"
    by (auto split: option.splits)
  show ?case
  proof (cases "it_parent_container item")
    case None
    then show ?thesis using Cons c by simp
  next
    case (Some po)
    from Cons.prems c Some obtain pc where pc: "po = Some pc" by (cases po) auto
    show ?thesis
    proof (cases "map_of t (ic_data_collection_key pc)")
      case None
      then show ?thesis using Cons c Some pc by simp
    next
      case (Some node)
      let ?t1 = "dict_set (ic_data_collection_key pc)
                   (node\<lparr>n_children := n_children node @ [ic_data_collection_key c]\<rparr>) t"
      from Cons.prems c \<open>it_parent_container item = Some po\<close> pc Some
      have step: "link_items items ?t1 = Inr t'" by (simp add: Let_def)
      note ih = Cons.IH[OF step]
      have m: "map_option n_level (map_of ?t1 k) = map_option n_level (map_of t k)"
        using Some by (simp add: map_of_dict_set)
      have d: "distinct (map fst t) \<longrightarrow> distinct (map fst ?t1)"
        by (simp add: distinct_dict_set)
      show ?thesis using ih m d by simp
    qed
  qed
qed

lemma root_collections_iff:
  assumes "distinct (map fst t)"
  shows "k \<in> set (root_collections t) \<longleftrightarrow> map_option n_level (map_of t k) = Some 2"
proof -
  have "k \<in> set (root_collections t) \<longleftrightarrow> (\<exists>node. (k, node) \<in> set t \<and> n_level node = 2)"
    by (force simp: root_collections_def)
  also have "\<dots> \<longleftrightarrow> (\<exists>node. map_of t k = Some node \<and> n_level node = 2)"
    using assms by simp
  also have "\<dots> \<longleftrightarrow> map_option n_level (map_of t k) = Some 2" by auto
  finally show ?thesis .
qed

text \<open>
  Claim C6, amended: the collections at which path construction starts are exactly those
  whose level is 2, the fixed root level of the website hierarchy: the collections whose
  last item in the document has \<open>aria-level\<close> 2 or has no \<open>aria-level\<close>, an absent level being
  read as 2. Each of them is listed once.
\<close>

theorem root_collections_are_level_two:
  assumes "parse_collection_hierarchy collection_items = Inr collection_tree"
  shows "distinct (root_collections collection_tree)
     \<and> set (root_collections collection_tree) =
         {k. \<exists>c. find (\<lambda>c. ic_data_collection_key c = k) (rev (containers collection_items)) = Some c
                \<and> (ic_aria_level c = NoLevel \<or> ic_aria_level c = LevelText 2)}"
proof -
  from assms obtain t0 where a: "add_items collection_items [] = Inr t0"
    and l: "link_items collection_items t0 = Inr collection_tree"
    by (auto simp: parse_collection_hierarchy_def split: sum.splits)
  note A = add_items_levels[OF a]
  note L = link_items_levels[OF l]
  have d: "distinct (map fst collection_tree)"
    using A[THEN conjunct2, THEN conjunct2] L[THEN conjunct2] by simp
  have nn: "\<forall>c\<in>set (containers collection_items). ic_aria_level c \<noteq> LevelNotInt"
    by (rule A[THEN conjunct2, THEN conjunct1])
  have lev: "map_option n_level (map_of collection_tree k) =
           (case find (\<lambda>c. ic_data_collection_key c = k) (rev (containers collection_items)) of
              Some c \<Rightarrow> Some (case ic_aria_level c of LevelText n \<Rightarrow> n | _ \<Rightarrow> 2)
            | None \<Rightarrow> None)" for k
    using A[of k, THEN conjunct1] L[of k, THEN conjunct1] by (simp split: option.splits)
  have mem: "k \<in> set (root_collections collection_tree) \<longleftrightarrow>
      (\<exists>c. find (\<lambda>c. ic_data_collection_key c = k) (rev (containers collection_items)) = Some c
                \<and> (ic_aria_level c = NoLevel \<or> ic_aria_level c = LevelText 2))" for k
  proof (cases "find (\<lambda>c. ic_data_collection_key c = k) (rev (containers collection_items))")
    case None
    then show ?thesis using root_collections_iff[OF d, of k] lev[of k] by simp
  next
    case (Some c)
    then have "c \<in> set (rev (containers collection_items))"
      by (rule find_in_set)
    then have "c \<in> set (containers collection_items)" by simp
    then have n: "ic_aria_level c \<noteq> LevelNotInt" using nn by blast
    have lv: "map_option n_level (map_of collection_tree k) =
        Some (case ic_aria_level c of LevelText n \<Rightarrow> n | _ \<Rightarrow> 2)"
      using lev[of k] Some by simp
    have two: "(case ic_aria_level c of LevelText n \<Rightarrow> n | _ \<Rightarrow> 2) = 2 \<longleftrightarrow>
        (ic_aria_level c = NoLevel \<or> ic_aria_level c = LevelText 2)"
      using n by (cases "ic_aria_level c") simp_all
    show ?thesis
      unfolding root_collections_iff[OF d, of k] lv Some using two by simp
  qed
  have dr: "distinct (root_collections collection_tree)"
    unfolding root_collections_def using d by (simp add: distinct_map_filter)
  have "set (root_collections collection_tree) =
         {k. \<exists>c. find (\<lambda>c. ic_data_collection_key c = k) (rev (containers collection_items)) = Some c
                \<and> (ic_aria_level c = NoLevel \<or> ic_aria_level c = LevelText 2)}"
    by (rule set_eqI) (simp add: mem)
  with dr show ?thesis by (rule conjI)
qed

theorem root_collections_are_level_two_witness:
  "parse_collection_hierarchy level_items = Inr level_tree
     \<and> distinct (root_collections level_tree)
     \<and> Some ''k2'' \<in> set (root_collections level_tree)"
proof -
  have h: "parse_collection_hierarchy level_items = Inr level_tree" by code_simp
  note t = root_collections_are_level_two[OF h]
  have f: "find (\<lambda>c. ic_data_collection_key c = Some ''k2'') (rev (containers level_items)) =
      Some fish_container" by code_simp
  have l: "ic_aria_level fish_container = NoLevel" by (simp add: fish_container_def)
  have "Some ''k2'' \<in> set (root_collections level_tree)"
    unfolding t[THEN conjunct2] using f l by simp
  with h t[THEN conjunct1] show ?thesis by simp
qed

text \<open>
  Claim C6 as stated fails: with one collection at level 1 and one without a level, the
  minimum observed level is 1 and the collection at that level is \<open>k1\<close>; path construction
  starts at \<open>k2\<close>, which got the level 2, not the shallowest level observed.
\<close>

theorem roots_not_minimum_level:
  "parse_collection_hierarchy level_items = Inr level_tree
     \<and> root_collections level_tree = [Some ''k2'']
     \<and> min_level_collections level_tree = [Some ''k1'']"
  by code_simp

section \<open>Properties of the hierarchy graph\<close>















section \<open>Properties of the mapping from titles to collections\<close>

lemma map_of_snoc_new:
  "f k = None \<Longrightarrow> [k \<mapsto> v] ++ f = f(k \<mapsto> v)"
  by (rule ext) (simp add: map_add_def split: option.splits)

lemma store_details_map_of:
  "map_of (store_details lib nt ds m) = (map_of m)(nt \<mapsto> set_library_entry lib ds (entry_or_empty m nt))"
proof (cases "map_of m nt")
  case None
  then show ?thesis
    by (cases lib) (simp_all add: map_of_snoc_new entry_or_empty_def)
next
  case (Some old)
  then show ?thesis
    by (cases lib) (simp_all add: map_of_dict_set entry_or_empty_def)
qed

lemma store_details_distinct:
  assumes "distinct (map fst m)"
  shows "distinct (map fst (store_details lib nt ds m))"
proof (cases "map_of m nt")
  case None
  then have "nt \<notin> fst ` set m" by (simp add: map_of_eq_None_iff)
  with None assms show ?thesis by (cases lib) simp_all
next
  case (Some old)
  with assms show ?thesis by (cases lib) (simp_all add: distinct_dict_set)
qed

lemma items_loop_step:
  assumes "items_loop lib C CI (item # items) m0 = Inr m"
  shows "(item_collections_of CI item = [] \<and> items_loop lib C CI items m0 = Inr m) \<or>
         (item_collections_of CI item \<noteq> [] \<and>
           (\<exists>ds. details_loop C (item_collections_of CI item) = Inr ds \<and>
                 items_loop lib C CI items (store_details lib (i_normalized_title item) ds m0) = Inr m))"
proof (cases "CI = []")
  case True
  with assms show ?thesis by (simp add: column_def)
next
  case False
  show ?thesis
  proof (cases "item_collections_of CI item = []")
    case True
    with assms False show ?thesis
      by (simp add: column_def item_collections_of_def Let_def)
  next
    case ne: False
    show ?thesis
    proof (cases "details_loop C (item_collections_of CI item)")
      case (Inl e)
      with assms False ne show ?thesis
        by (simp add: column_def item_collections_of_def Let_def)
    next
      case (Inr ds)
      with assms False ne show ?thesis
        by (simp add: column_def item_collections_of_def Let_def)
    qed
  qed
qed

lemma set_library_entry_twice:
  "set_library_entry lib ds (set_library_entry lib ds' tc) = set_library_entry lib ds tc"
  by (cases lib) simp_all

lemma library_entry_set: "library_entry lib (set_library_entry lib ds tc) = ds"
  by (cases lib) simp_all

lemma library_entry_set_other:
  "lib' \<noteq> lib \<Longrightarrow> library_entry lib (set_library_entry lib' ds tc) = library_entry lib tc"
  by (cases lib; cases lib') simp_all

lemma items_loop_result:
  assumes "items_loop lib C CI items m0 = Inr m"
  shows "(filed_items CI t items = [] \<longrightarrow> map_of m t = map_of m0 t) \<and>
         (filed_items CI t items \<noteq> [] \<longrightarrow>
            (\<exists>ds. details_loop C (item_collections_of CI (last (filed_items CI t items))) = Inr ds \<and>
                  map_of m t = Some (set_library_entry lib ds (entry_or_empty m0 t))))"
  using assms
proof (induction items arbitrary: m0)
  case Nil
  then show ?case by (simp add: filed_items_def)
next
  case (Cons item items)
  from items_loop_step[OF Cons.prems]
  show ?case
  proof (elim disjE conjE exE)
    assume e: "item_collections_of CI item = []" and r: "items_loop lib C CI items m0 = Inr m"
    have h: "filed_items CI t (item # items) = filed_items CI t items" using e by (simp add: filed_items_def)
    show ?thesis unfolding h by (rule Cons.IH[OF r])
  next
    fix ds
    assume ne: "item_collections_of CI item \<noteq> []"
      and d: "details_loop C (item_collections_of CI item) = Inr ds"
      and r: "items_loop lib C CI items (store_details lib (i_normalized_title item) ds m0) = Inr m"
    let ?m1 = "store_details lib (i_normalized_title item) ds m0"
    note ih = Cons.IH[OF r]
    show ?thesis
    proof (cases "i_normalized_title item = t")
      case False
      have h: "filed_items CI t (item # items) = filed_items CI t items" using False by (simp add: filed_items_def)
      have m1: "map_of ?m1 t = map_of m0 t" using False by (simp add: store_details_map_of)
      have e1: "entry_or_empty ?m1 t = entry_or_empty m0 t" by (simp add: entry_or_empty_def m1)
      show ?thesis unfolding h using ih by (simp add: m1 e1)
    next
      case True
      have h: "filed_items CI t (item # items) = item # filed_items CI t items"
        using True ne by (simp add: filed_items_def)
      have m1: "map_of ?m1 t = Some (set_library_entry lib ds (entry_or_empty m0 t))"
        using True by (simp add: store_details_map_of)
      have e1: "entry_or_empty ?m1 t = set_library_entry lib ds (entry_or_empty m0 t)"
        by (simp add: entry_or_empty_def m1)
      show ?thesis
      proof (cases "filed_items CI t items = []")
        case True
        then show ?thesis unfolding h using ih d m1 by simp
      next
        case False
        then show ?thesis unfolding h using ih by (simp add: e1 set_library_entry_twice)
      qed
    qed
  qed
qed

lemma items_loop_distinct:
  assumes "items_loop lib C CI items m0 = Inr m" and "distinct (map fst m0)"
  shows "distinct (map fst m)"
  using assms
proof (induction items arbitrary: m0)
  case Nil
  then show ?case by simp
next
  case (Cons item items)
  from items_loop_step[OF Cons.prems(1)]
  show ?case
  proof (elim disjE conjE exE)
    assume "items_loop lib C CI items m0 = Inr m"
    then show ?thesis using Cons.IH Cons.prems(2) by simp
  next
    fix ds
    assume r: "items_loop lib C CI items (store_details lib (i_normalized_title item) ds m0) = Inr m"
    show ?thesis
      by (rule Cons.IH[OF r store_details_distinct[OF Cons.prems(2)]])
  qed
qed


lemma title_rows_title: "r \<in> set (title_rows common entry) \<Longrightarrow> a_normalized_title r = fst entry"
  by (auto simp: title_rows_def Let_def analysis_row_of_def)

lemma filter_title_rows_same:
  "filter (\<lambda>r. a_normalized_title r = t) (title_rows common (t, tc)) = title_rows common (t, tc)"
  using title_rows_title[of _ common "(t, tc)"] by (simp add: filter_id_conv)

lemma filter_title_rows_other:
  "k \<noteq> t \<Longrightarrow> filter (\<lambda>r. a_normalized_title r = t) (title_rows common (k, tc)) = []"
  using title_rows_title[of _ common "(k, tc)"] by (auto simp: filter_empty_conv)

lemma collection_data_absent:
  "t \<notin> fst ` set m \<Longrightarrow> filter (\<lambda>r. a_normalized_title r = t) (collection_data common m) = []"
proof (induction m)
  case Nil
  show ?case by (simp add: collection_data_def)
next
  case (Cons e m)
  obtain k tc where e: "e = (k, tc)" by (cases e)
  from Cons.prems e have k: "k \<noteq> t" and r: "t \<notin> fst ` set m" by auto
  have "filter (\<lambda>r. a_normalized_title r = t) (collection_data common m) = []"
    by (rule Cons.IH[OF r])
  then show ?case
    using filter_title_rows_other[OF k, of common tc]
    by (simp add: collection_data_def e)
qed

lemma collection_data_title:
  assumes "distinct (map fst m)" and "map_of m t = Some tc"
  shows "filter (\<lambda>r. a_normalized_title r = t) (collection_data common m) = title_rows common (t, tc)"
  using assms
proof (induction m)
  case Nil
  then show ?case by simp
next
  case (Cons e m)
  obtain k v where e: "e = (k, v)" by (cases e)
  show ?case
  proof (cases "k = t")
    case True
    from Cons.prems e True have v: "v = tc" and r: "t \<notin> fst ` set m" by auto
    show ?thesis
      using collection_data_absent[OF r, of common] filter_title_rows_same[of t common tc]
      by (simp add: collection_data_def e True v)
  next
    case False
    from Cons.prems e False have d: "distinct (map fst m)" and l: "map_of m t = Some tc" by auto
    have "filter (\<lambda>r. a_normalized_title r = t) (collection_data common m) = title_rows common (t, tc)"
      by (rule Cons.IH[OF d l])
    then show ?thesis
      using filter_title_rows_other[OF False, of common v]
      by (simp add: collection_data_def e)
  qed
qed

lemma title_rows_library:
  "filter (\<lambda>r. a_library r = library_name lib) (title_rows common (t, tc)) =
     map (analysis_row_of t (library_name lib) (t \<in> common)) (library_entry lib tc)"
proof -
  have p: "filter (\<lambda>r. a_library r = l) (map (analysis_row_of t l' b) ds) =
      (if l' = l then map (analysis_row_of t l' b) ds else [])" for l l' b ds
    by (induction ds) (simp_all add: analysis_row_of_def)
  show ?thesis
    by (cases lib) (simp_all add: title_rows_def Let_def p)
qed

lemma collection_data_title_library:
  assumes "distinct (map fst m)" and "map_of m t = Some tc"
  shows "filter (\<lambda>r. a_normalized_title r = t \<and> a_library r = library_name lib) (collection_data common m) =
     map (analysis_row_of t (library_name lib) (t \<in> common)) (library_entry lib tc)"
proof -
  have "filter (\<lambda>r. a_normalized_title r = t \<and> a_library r = library_name lib) (collection_data common m) =
      filter (\<lambda>r. a_library r = library_name lib)
        (filter (\<lambda>r. a_normalized_title r = t) (collection_data common m))"
    by (simp add: conj_commute)
  then show ?thesis
    by (simp only: collection_data_title[OF assms] title_rows_library)
qed

lemma process_libraries_parts:
  assumes "process_libraries wh prdf pxml srdf sxml = Inr res"
  shows "\<exists>m1. items_loop Portal (collections_df (extract_from_rdf wh prdf ''Portal''))
                (collection_items_df (extract_from_rdf wh prdf ''Portal''))
                (items_df (extract_from_rdf wh prdf ''Portal'')) [] = Inr m1
           \<and> items_loop Search (collections_df (extract_from_rdf wh srdf ''Search''))
                (collection_items_df (extract_from_rdf wh srdf ''Search''))
                (items_df (extract_from_rdf wh srdf ''Search'')) m1 = Inr (res_title_to_collections res)
           \<and> res_collection_analysis res =
                collection_data (res_common_titles res) (res_title_to_collections res)"
proof -
  let ?p = "extract_from_rdf wh prdf ''Portal''" and ?s = "extract_from_rdf wh srdf ''Search''"
  let ?ov = "overlap_analysis (extract_from_dedup_xml pxml ''Portal'') (extract_from_dedup_xml sxml ''Search'')"
  from assms obtain ov where ov: "?ov = Inr ov"
    by (cases ?ov) (simp_all add: process_libraries_def Let_def)
  let ?l1 = "items_loop Portal (collections_df ?p) (collection_items_df ?p) (items_df ?p) []"
  from assms ov obtain m1 where m1: "?l1 = Inr m1"
    by (cases ?l1) (simp_all add: process_libraries_def Let_def)
  let ?l2 = "items_loop Search (collections_df ?s) (collection_items_df ?s) (items_df ?s) m1"
  from assms ov m1 obtain m where m: "?l2 = Inr m"
    by (cases ?l2) (simp_all add: process_libraries_def Let_def)
  let ?st = "collection_statistics (collection_data (res_common_titles ov) m)"
  from assms ov m1 m obtain stats where st: "?st = Inr stats"
    by (cases ?st) (simp_all add: process_libraries_def Let_def)
  from assms ov m1 m st have res: "res = overlap_result.extend ov
       \<lparr>res_title_to_collections = m,
        res_collection_analysis = collection_data (res_common_titles ov) m,
        res_collection_stats = stats\<rparr>"
    by (simp add: process_libraries_def Let_def)
  have a: "res_title_to_collections res = m"
    and b: "res_collection_analysis res = collection_data (res_common_titles ov) m"
    and c: "res_common_titles res = res_common_titles ov"
    unfolding res by (simp_all add: overlap_result.defs)
  show ?thesis using m1 m unfolding a b c by simp
qed

text \<open>
  Claim C10, amended: in the mapping from titles to collections that \<open>process_libraries\<close>
  builds, a normalized title that several items of a library share keeps, for that library,
  the collection details of one item only: the last of these items, in iteration order,
  that has at least one membership row. The rows of the analysis frame for the title and
  the library, from which the statistics are counted, are the rows of that item's details.
\<close>

theorem title_to_collections_keeps_last_filed_item:
  assumes "process_libraries wh prdf pxml srdf sxml = Inr res"
    and "e = (case lib of Portal \<Rightarrow> extract_from_rdf wh prdf ''Portal''
                        | Search \<Rightarrow> extract_from_rdf wh srdf ''Search'')"
    and "filed_items (collection_items_df e) t (items_df e) \<noteq> []"
  shows "distinct (map fst (res_title_to_collections res))
     \<and> (\<exists>tc. map_of (res_title_to_collections res) t = Some tc
          \<and> details_loop (collections_df e)
               (item_collections_of (collection_items_df e)
                  (last (filed_items (collection_items_df e) t (items_df e)))) = Inr (library_entry lib tc)
          \<and> filter (\<lambda>r. a_normalized_title r = t \<and> a_library r = library_name lib)
               (res_collection_analysis res) =
             map (analysis_row_of t (library_name lib) (t \<in> res_common_titles res))
               (library_entry lib tc))"
proof -
  let ?p = "extract_from_rdf wh prdf ''Portal''" and ?s = "extract_from_rdf wh srdf ''Search''"
  let ?m = "res_title_to_collections res"
  from process_libraries_parts[OF assms(1)] obtain m1
    where l1: "items_loop Portal (collections_df ?p) (collection_items_df ?p) (items_df ?p) [] = Inr m1"
      and l2: "items_loop Search (collections_df ?s) (collection_items_df ?s) (items_df ?s) m1 = Inr ?m"
      and ca: "res_collection_analysis res = collection_data (res_common_titles res) ?m"
    by (elim exE conjE)
  have d1: "distinct (map fst m1)" using items_loop_distinct[OF l1] by simp
  have d: "distinct (map fst ?m)" by (rule items_loop_distinct[OF l2 d1])
  note r1 = items_loop_result[OF l1, of t]
  note r2 = items_loop_result[OF l2, of t]
  have "\<exists>tc. map_of ?m t = Some tc
          \<and> details_loop (collections_df e)
               (item_collections_of (collection_items_df e)
                  (last (filed_items (collection_items_df e) t (items_df e)))) = Inr (library_entry lib tc)"
  proof (cases lib)
    case Portal
    then have e: "e = ?p" using assms(2) by simp
    from r1[THEN conjunct2] assms(3) obtain ds
      where ds: "details_loop (collections_df ?p)
               (item_collections_of (collection_items_df ?p)
                  (last (filed_items (collection_items_df ?p) t (items_df ?p)))) = Inr ds"
        and m1: "map_of m1 t = Some (set_library_entry Portal ds (entry_or_empty [] t))"
      unfolding e by blast
    show ?thesis
    proof (cases "filed_items (collection_items_df ?s) t (items_df ?s) = []")
      case True
      then have "map_of ?m t = map_of m1 t" using r2[THEN conjunct1] by simp
      then show ?thesis unfolding e Portal using m1 ds by simp
    next
      case False
      then obtain ds2 where
        "map_of ?m t = Some (set_library_entry Search ds2 (entry_or_empty m1 t))"
        using r2[THEN conjunct2] by blast
      then show ?thesis unfolding e Portal using m1 ds by (simp add: entry_or_empty_def)
    qed
  next
    case Search
    then have e: "e = ?s" using assms(2) by simp
    from r2[THEN conjunct2] assms(3) obtain ds
      where ds: "details_loop (collections_df ?s)
               (item_collections_of (collection_items_df ?s)
                  (last (filed_items (collection_items_df ?s) t (items_df ?s)))) = Inr ds"
        and m: "map_of ?m t = Some (set_library_entry Search ds (entry_or_empty m1 t))"
      unfolding e by blast
    show ?thesis unfolding e Search using m ds by simp
  qed
  then obtain tc where tc: "map_of ?m t = Some tc"
    and dl: "details_loop (collections_df e)
               (item_collections_of (collection_items_df e)
                  (last (filed_items (collection_items_df e) t (items_df e)))) = Inr (library_entry lib tc)"
    by (elim exE conjE)
  have rows: "filter (\<lambda>r. a_normalized_title r = t \<and> a_library r = library_name lib)
               (res_collection_analysis res) =
             map (analysis_row_of t (library_name lib) (t \<in> res_common_titles res))
               (library_entry lib tc)"
    unfolding ca by (rule collection_data_title_library[OF d tc])
  show ?thesis using d tc dl rows by blast
qed

theorem title_to_collections_keeps_last_filed_item_witness:
  "\<not> isl (process_libraries [] (Some duplicate_rdf) (Some example_portal_xml)
            (Some example_search_rdf) (Some example_search_xml))
   \<and> map_sum id
        (\<lambda>res. map_option (\<lambda>tc. map d_id (tc_Portal tc))
                 (map_of (res_title_to_collections res) ''salmon habitat''))
        (process_libraries [] (Some duplicate_rdf) (Some example_portal_xml)
            (Some example_search_rdf) (Some example_search_xml)) = Inr (Some [''B''])"
proof -
  let ?P = "process_libraries [] (Some duplicate_rdf) (Some example_portal_xml)
            (Some example_search_rdf) (Some example_search_xml)"
  let ?e = "extract_from_rdf [] (Some duplicate_rdf) ''Portal''"
  let ?t = "''salmon habitat''"
  have n: "\<not> isl ?P" by code_simp
  then obtain res where r: "?P = Inr res" by (cases ?P) simp_all
  have e: "?e = (case Portal of Portal \<Rightarrow> extract_from_rdf [] (Some duplicate_rdf) ''Portal''
                        | Search \<Rightarrow> extract_from_rdf [] (Some example_search_rdf) ''Search'')"
    by simp
  have h: "filed_items (collection_items_df ?e) ?t (items_df ?e) \<noteq> []" by code_simp
  have d: "map_sum id (map d_id) (details_loop (collections_df ?e)
             (item_collections_of (collection_items_df ?e)
                (last (filed_items (collection_items_df ?e) ?t (items_df ?e))))) = Inr [''B'']"
    by code_simp
  from title_to_collections_keeps_last_filed_item[OF r e h] obtain tc
    where tc: "map_of (res_title_to_collections res) ?t = Some tc"
      and dl: "details_loop (collections_df ?e)
             (item_collections_of (collection_items_df ?e)
                (last (filed_items (collection_items_df ?e) ?t (items_df ?e)))) = Inr (library_entry Portal tc)"
    by (elim exE conjE)
  have "map d_id (tc_Portal tc) = [''B'']" using d unfolding dl by simp
  then have "map_sum id
        (\<lambda>res. map_option (\<lambda>tc. map d_id (tc_Portal tc))
                 (map_of (res_title_to_collections res) ''salmon habitat'')) ?P = Inr (Some [''B''])"
    unfolding r using tc by simp
  with n show ?thesis by (rule conjI)
qed

text \<open>
  Claim C10 as stated fails: the two items have the same normalized title, the last of them
  has no membership row, and the mapping keeps the collection \<open>A\<close> of the earlier item, not
  the memberships of the last one.
\<close>

theorem last_item_without_memberships_keeps_earlier:
  "map i_normalized_title (items_df (extract_from_rdf [] (Some unfiled_duplicate_rdf) ''Portal'')) =
       [''salmon habitat'', ''salmon habitat'']
   \<and> item_collections_of
        (collection_items_df (extract_from_rdf [] (Some unfiled_duplicate_rdf) ''Portal''))
        (last (items_df (extract_from_rdf [] (Some unfiled_duplicate_rdf) ''Portal''))) = []
   \<and> map_sum id
        (\<lambda>res. map_option (\<lambda>tc. map d_id (tc_Portal tc))
                 (map_of (res_title_to_collections res) ''salmon habitat''))
        (process_libraries [] (Some unfiled_duplicate_rdf) (Some example_portal_xml)
            (Some example_search_rdf) (Some example_search_xml)) = Inr (Some [''A''])"
  by code_simp

end
